theory Spec2Isabelle
  imports Complex_Main
begin

section \<open>The grid of \<open>GameOfLife.tsx\<close>\<close>

text \<open>
  \<^verbatim>\<open>type Cell = boolean; type Grid = Cell[][];\<close>
  A grid is a list of rows, each a list of booleans. Array indices and the loop
  variables of the source are JavaScript numbers that only ever hold integers here, so
  they are modelled as \<open>int\<close>; pointer coordinates may be fractional and are \<open>real\<close>.
\<close>

type_synonym cell = bool
type_synonym grid = "cell list list"

definition CELL_SIZE :: nat where "CELL_SIZE = 10"
definition WIDTH :: nat where "WIDTH = 1920"
definition HEIGHT :: nat where "HEIGHT = 1080"
text \<open>
  \<open>RANDOM = 0.8\<close> is a double; its exact value is the fraction below, so the
  comparison \<open>Math.random() > RANDOM\<close> of two doubles is the comparison of the reals.
\<close>

definition RANDOM :: real where "RANDOM = 3602879701896397 / 4503599627370496"

subsection \<open>JavaScript primitives used by the component\<close>

text \<open>
  \<open>a % b\<close> on integer-valued numbers: the remainder takes the sign of the dividend, and
  \<open>a % 0\<close> is \<open>NaN\<close>, modelled as \<open>None\<close>.
\<close>

definition js_rem :: "int \<Rightarrow> int \<Rightarrow> int option" where
  "js_rem a b = (if b = 0 then None else Some (sgn a * (\<bar>a\<bar> mod \<bar>b\<bar>)))"

text \<open>\<open>xs[i]\<close>: \<open>undefined\<close> (here \<open>None\<close>) outside the index range, never an exception.\<close>

definition js_index :: "'a list \<Rightarrow> int \<Rightarrow> 'a option" where
  "js_index xs i = (if 0 \<le> i \<and> i < int (length xs) then Some (xs ! nat i) else None)"

text \<open>\<open>grid[r]?.[c]\<close>: the optional chain yields \<open>undefined\<close> when the row is missing.\<close>

definition grid_at :: "grid \<Rightarrow> int \<Rightarrow> int \<Rightarrow> cell option" where
  "grid_at g r c = (case js_index g r of None \<Rightarrow> None | Some row \<Rightarrow> js_index row c)"

text \<open>Truthiness of a value that is a boolean or \<open>undefined\<close>.\<close>

definition truthy :: "bool option \<Rightarrow> bool" where
  "truthy v = (v = Some True)"

subsection \<open>\<open>countNeighbors\<close>\<close>

text \<open>\<open>const [numRows, numCols] = [grid.length, grid[0]?.length || 0];\<close>\<close>

definition numRows :: "grid \<Rightarrow> int" where
  "numRows g = int (length g)"

definition numCols :: "grid \<Rightarrow> int" where
  "numCols g = (case js_index g 0 of None \<Rightarrow> 0 | Some row \<Rightarrow> int (length row))"

definition neighborsRow :: "grid \<Rightarrow> int \<Rightarrow> int \<Rightarrow> int option" where
  "neighborsRow g row i = js_rem (row + i + numRows g) (numRows g)"

definition neighborsColumn :: "grid \<Rightarrow> int \<Rightarrow> int \<Rightarrow> int option" where
  "neighborsColumn g col j = js_rem (col + j + numCols g) (numCols g)"

text \<open>
  The guard "Check if the neighbor is within the grid". A comparison with \<open>NaN\<close> is
  false, so a missing remainder fails the guard. When the guard holds, the result is the
  pair of indices with which the grid is read on the next line.
\<close>

definition within_grid :: "grid \<Rightarrow> int option \<Rightarrow> int option \<Rightarrow> (int \<times> int) option" where
  "within_grid g nr nc =
     (case nr of None \<Rightarrow> None | Some r \<Rightarrow>
        (case nc of None \<Rightarrow> None | Some c \<Rightarrow>
           if 0 \<le> r \<and> r < numRows g \<and> 0 \<le> c \<and> c < numCols g then Some (r, c) else None))"

text \<open>One pass through the body of the inner loop, for the offsets \<open>i\<close>, \<open>j\<close>.\<close>

definition visit :: "grid \<Rightarrow> int \<Rightarrow> int \<Rightarrow> int \<Rightarrow> int \<Rightarrow> nat \<Rightarrow> nat" where
  "visit g row col i j count =
     (if i = 0 \<and> j = 0 then count
      else (case within_grid g (neighborsRow g row i) (neighborsColumn g col j) of
              None \<Rightarrow> count
            | Some (r, c) \<Rightarrow> if truthy (grid_at g r c) then count + 1 else count))"

text \<open>\<open>for (let i = -1; i <= 1; i++) for (let j = -1; j <= 1; j++) ...\<close>, from \<open>count = 0\<close>.\<close>

definition countNeighbors :: "grid \<Rightarrow> int \<Rightarrow> int \<Rightarrow> nat" where
  "countNeighbors g row col =
     fold (\<lambda>i. fold (\<lambda>j. visit g row col i j) [-1, 0, 1]) [-1, 0, 1] 0"

text \<open>
  The index pairs with which \<open>countNeighbors\<close> reads the grid, in the order of the reads:
  a read happens exactly when the cell is not skipped and the guard holds.
\<close>

definition reads_at :: "grid \<Rightarrow> int \<Rightarrow> int \<Rightarrow> int \<Rightarrow> int \<Rightarrow> (int \<times> int) list" where
  "reads_at g row col i j =
     (if i = 0 \<and> j = 0 then []
      else (case within_grid g (neighborsRow g row i) (neighborsColumn g col j) of
              None \<Rightarrow> [] | Some p \<Rightarrow> [p]))"

definition neighbor_reads :: "grid \<Rightarrow> int \<Rightarrow> int \<Rightarrow> (int \<times> int) list" where
  "neighbor_reads g row col =
     concat (map (\<lambda>i. concat (map (\<lambda>j. reads_at g row col i j) [-1, 0, 1])) [-1, 0, 1])"

subsection \<open>\<open>updateGrid\<close>\<close>

text \<open>
  \<open>cells.map((row, rowIndex) => row.map((cell, cellIndex) => ...))\<close>: every cell is
  replaced by the verdict of the rule on its neighbour count in the old grid.
\<close>

definition next_cell :: "cell \<Rightarrow> nat \<Rightarrow> cell" where
  "next_cell cell neighbors = (if cell then neighbors = 2 \<or> neighbors = 3 else neighbors = 3)"

definition updateGrid :: "grid \<Rightarrow> grid" where
  "updateGrid cells =
     map (\<lambda>(rowIndex, row).
            map (\<lambda>(cellIndex, cell).
                   next_cell cell (countNeighbors cells (int rowIndex) (int cellIndex)))
                (enumerate 0 row))
         (enumerate 0 cells)"

subsection \<open>\<open>random\<close> and \<open>clear\<close>\<close>

text \<open>
  \<open>Array.from({ length: HEIGHT / CELL_SIZE }, () => Array.from({ length: WIDTH / CELL_SIZE }, f))\<close>.
  Both quotients are whole numbers.
\<close>

definition fresh_grid :: "(nat \<Rightarrow> nat \<Rightarrow> cell) \<Rightarrow> grid" where
  "fresh_grid f =
     map (\<lambda>r. map (\<lambda>c. f r c) [0..<WIDTH div CELL_SIZE]) [0..<HEIGHT div CELL_SIZE]"

text \<open>
  \<open>Math.random() > RANDOM\<close> for every cell. The argument \<open>rnd\<close> is the sequence of values
  that the successive calls of \<open>Math.random\<close> return; the calls happen row by row.
\<close>

definition random_grid :: "(nat \<Rightarrow> real) \<Rightarrow> grid" where
  "random_grid rnd = fresh_grid (\<lambda>r c. rnd (r * (WIDTH div CELL_SIZE) + c) > RANDOM)"

definition clear_grid :: grid where
  "clear_grid = fresh_grid (\<lambda>r c. False)"

subsection \<open>\<open>addGlider\<close>\<close>

definition glider :: grid where
  "glider = [[True, True, True], [True, False, False], [False, True, False]]"

text \<open>\<open>glider[0] ? glider[0].length : 0\<close>\<close>

definition glider_width :: int where
  "glider_width = (case js_index glider 0 of None \<Rightarrow> 0 | Some row \<Rightarrow> int (length row))"

text \<open>\<open>mouseOverCell ? mouseOverCell[0] : 50\<close> and \<open>mouseOverCell ? mouseOverCell[1] : 50\<close>\<close>

definition inputRow :: "(int \<times> int) option \<Rightarrow> int" where
  "inputRow m = (case m of None \<Rightarrow> 50 | Some (r, c) \<Rightarrow> r)"

definition inputColumn :: "(int \<times> int) option \<Rightarrow> int" where
  "inputColumn m = (case m of None \<Rightarrow> 50 | Some (r, c) \<Rightarrow> c)"

text \<open>
  \<open>newGrid\<close>: the lookup \<open>glider[rowIndex - inputRow]?.[cellIndex - inputColumn]\<close> has type
  \<open>boolean | undefined\<close>, so the cells of \<open>newGrid\<close> are optional booleans.
\<close>

definition addGlider_cells :: "grid \<Rightarrow> (int \<times> int) option \<Rightarrow> cell option list list" where
  "addGlider_cells cells m =
     map (\<lambda>(rowIndex, row).
            map (\<lambda>(cellIndex, cell).
                   if int rowIndex \<ge> inputRow m \<and>
                      int rowIndex < inputRow m + int (length glider) \<and>
                      int cellIndex \<ge> inputColumn m \<and>
                      int cellIndex < inputColumn m + glider_width
                   then grid_at glider (int rowIndex - inputRow m) (int cellIndex - inputColumn m)
                   else Some cell)
                (enumerate 0 row))
         (enumerate 0 cells)"

text \<open>
  \<open>newGrid as Grid\<close>: the cast is unchecked. The model returns \<open>None\<close> when some cell is
  \<open>undefined\<close>, that is, when the stored value would not be a grid of booleans.
\<close>

definition as_Grid :: "cell option list list \<Rightarrow> grid option" where
  "as_Grid g = (if list_all (list_all (\<lambda>v. v \<noteq> None)) g then Some (map (map the) g) else None)"

definition addGlider :: "grid \<Rightarrow> (int \<times> int) option \<Rightarrow> grid option" where
  "addGlider cells m = as_Grid (addGlider_cells cells m)"

subsection \<open>\<open>toggleCell\<close> and the pointer\<close>

text \<open>
  \<open>x\<close> and \<open>y\<close> are the pointer's coordinates relative to the canvas
  (\<open>event.clientX - rect.left\<close>, \<open>event.clientY - rect.top\<close>).
\<close>

definition pointer_cell :: "real \<Rightarrow> real \<Rightarrow> int \<times> int" where
  "pointer_cell x y = (\<lfloor>y / real CELL_SIZE\<rfloor>, \<lfloor>x / real CELL_SIZE\<rfloor>)"

definition toggleCell :: "grid \<Rightarrow> real \<Rightarrow> real \<Rightarrow> grid" where
  "toggleCell cells x y =
     (let rowIndex = fst (pointer_cell x y); cellIndex = snd (pointer_cell x y) in
      map (\<lambda>(rIndex, row).
             if int rIndex = rowIndex
             then map (\<lambda>(cIndex, cell). if int cIndex = cellIndex then \<not> cell else cell)
                      (enumerate 0 row)
             else row)
          (enumerate 0 cells))"

section \<open>The component's state and its event handlers\<close>

text \<open>
  The \<open>useState\<close> slots of the component, the value \<open>inView\<close> of the \<open>useInView\<close> hook, and
  the two props: \<open>showName\<close> (owned by the embedding page, which stores what the setter is
  given) and whether \<open>setShowName\<close> was supplied.
\<close>

record state =
  cells :: grid
  mouseOverCell :: "(int \<times> int) option"
  systemRunning :: bool
  userRunning :: bool
  running :: bool
  showControls :: bool
  inView :: bool
  showName :: bool
  setShowName :: bool

definition handleRunClick :: "state \<Rightarrow> state" where
  "handleRunClick s = s\<lparr>userRunning := \<not> userRunning s\<rparr>"

text \<open>\<open>if (running) return; updateGrid();\<close>\<close>

definition step :: "state \<Rightarrow> state" where
  "step s = (if running s then s else s\<lparr>cells := updateGrid (cells s)\<rparr>)"

definition random :: "(nat \<Rightarrow> real) \<Rightarrow> state \<Rightarrow> state" where
  "random rnd s = s\<lparr>cells := random_grid rnd\<rparr>"

definition clear :: "state \<Rightarrow> state" where
  "clear s = s\<lparr>cells := clear_grid\<rparr>"

text \<open>\<open>fullScreen\<close> talks to the document only; no slot of the component changes.\<close>

definition fullScreen :: "state \<Rightarrow> state" where
  "fullScreen s = s"

definition addGlider_handler :: "state \<Rightarrow> state option" where
  "addGlider_handler s =
     (case addGlider (cells s) (mouseOverCell s) of
        None \<Rightarrow> None | Some g \<Rightarrow> Some (s\<lparr>cells := g\<rparr>))"

definition toggleCell_handler :: "real \<Rightarrow> real \<Rightarrow> state \<Rightarrow> state" where
  "toggleCell_handler x y s = s\<lparr>cells := toggleCell (cells s) x y\<rparr>"

definition handleMouseOver :: "real \<Rightarrow> real \<Rightarrow> state \<Rightarrow> state" where
  "handleMouseOver x y s = s\<lparr>mouseOverCell := Some (pointer_cell x y)\<rparr>"

definition handleMouseOut :: "state \<Rightarrow> state" where
  "handleMouseOut s = s\<lparr>mouseOverCell := None\<rparr>"

definition toggleControls :: "state \<Rightarrow> state" where
  "toggleControls s = s\<lparr>showControls := \<not> showControls s\<rparr>"

definition toggleName :: "state \<Rightarrow> state" where
  "toggleName s = s\<lparr>showName := \<not> showName s\<rparr>"

text \<open>The \<open>switch (event.key)\<close> of \<open>handleKeyDown\<close>, case by case in the source's order.\<close>

definition handleKeyDown :: "(nat \<Rightarrow> real) \<Rightarrow> string \<Rightarrow> state \<Rightarrow> state option" where
  "handleKeyDown rnd key s =
     (if key = '' '' then Some (s\<lparr>userRunning := \<not> userRunning s\<rparr>)
      else if key = ''r'' then Some (random rnd s)
      else if key = ''c'' then Some (clear s)
      else if key = ''s'' then Some (step s)
      else if key = ''p'' then Some (s\<lparr>running := \<not> running s\<rparr>)
      else if key = ''m'' then Some (toggleControls s)
      else if key = ''n'' then (if \<not> setShowName s then Some s else Some (toggleName s))
      else if key = ''f'' then Some (fullScreen s)
      else if key = ''g'' then addGlider_handler s
      else Some s)"

text \<open>
  The interval timer exists only while \<open>running\<close> is true (the "Run the simulation"
  effect); each firing calls \<open>updateGrid\<close>.
\<close>

definition tick :: "state \<Rightarrow> state" where
  "tick s = (if running s then s\<lparr>cells := updateGrid (cells s)\<rparr> else s)"

subsection \<open>Effects\<close>

text \<open>
  After a render React runs the effects whose dependencies differ from the previous
  render. Two effects write state: the one on \<open>[inView]\<close> copies \<open>inView\<close> to
  \<open>systemRunning\<close>, the one on \<open>[systemRunning, userRunning]\<close> sets \<open>running\<close> to their
  conjunction. Both read the values of the render they belong to, and their writes lead
  to a further render.
\<close>

definition inView_changed :: "state \<Rightarrow> state \<Rightarrow> bool" where
  "inView_changed prev cur = (inView prev \<noteq> inView cur)"

definition running_deps_changed :: "state \<Rightarrow> state \<Rightarrow> bool" where
  "running_deps_changed prev cur =
     (systemRunning prev \<noteq> systemRunning cur \<or> userRunning prev \<noteq> userRunning cur)"

definition effects :: "state \<Rightarrow> state \<Rightarrow> state" where
  "effects prev cur =
     cur\<lparr>systemRunning := (if inView_changed prev cur then inView cur else systemRunning cur),
         running := (if running_deps_changed prev cur
                     then systemRunning cur \<and> userRunning cur else running cur)\<rparr>"

function settle :: "state \<Rightarrow> state \<Rightarrow> state" where
  "settle prev cur =
     (if inView_changed prev cur \<or> running_deps_changed prev cur
      then settle cur (effects prev cur) else cur)"
  by pat_completeness auto
termination
  by (relation "measure (\<lambda>(prev, cur).
        if inView_changed prev cur then 2 else if running_deps_changed prev cur then 1 else 0)")
     (auto simp: inView_changed_def running_deps_changed_def effects_def)

text \<open>The equation of \<open>settle\<close> is recursive without a guard, so it is unfolded by hand.\<close>

declare settle.simps [simp del]

text \<open>
  Mounting: the \<open>useState\<close> initial values, then every effect once, then renders until
  nothing changes. \<open>iv\<close> is what \<open>useInView\<close> reports on the first render.
\<close>

definition initial_state :: "(nat \<Rightarrow> real) \<Rightarrow> bool \<Rightarrow> bool \<Rightarrow> bool \<Rightarrow> state" where
  "initial_state rnd iv name setter =
     \<lparr>cells = random_grid rnd, mouseOverCell = None, systemRunning = True,
      userRunning = True, running = True, showControls = False, inView = iv,
      showName = name, setShowName = setter\<rparr>"

definition mount :: "(nat \<Rightarrow> real) \<Rightarrow> bool \<Rightarrow> bool \<Rightarrow> bool \<Rightarrow> state" where
  "mount rnd iv name setter =
     (let s0 = initial_state rnd iv name setter in
      settle s0 (s0\<lparr>systemRunning := inView s0,
                    running := systemRunning s0 \<and> userRunning s0\<rparr>))"

subsection \<open>Events\<close>

text \<open>
  What can happen to the mounted component: a click or a move of the pointer on the
  canvas, the pointer leaving it, a key, the \<open>onClick\<close> of one of the menu buttons, a
  firing of the interval timer, and a new value of \<open>inView\<close>. \<open>Press b\<close> stands for the
  \<open>onClick\<close> of a button that is on the page. The link button at the bottom of the
  page touches no state of the component and is left out.
\<close>

datatype button = RunButton | StepButton | RandomButton | ClearButton | NameButton
  | FullScreenButton | GliderButton | MenuButton

datatype event = Click real real | MouseMove real real | MouseOut | KeyDown string
  | Press button | Tick | Intersect bool

fun handle :: "(nat \<Rightarrow> real) \<Rightarrow> event \<Rightarrow> state \<Rightarrow> state option" where
  "handle rnd (Click x y) s = Some (toggleCell_handler x y s)"
| "handle rnd (MouseMove x y) s = Some (handleMouseOver x y s)"
| "handle rnd MouseOut s = Some (handleMouseOut s)"
| "handle rnd (KeyDown key) s = handleKeyDown rnd key s"
| "handle rnd (Press RunButton) s = Some (handleRunClick s)"
| "handle rnd (Press StepButton) s = Some (step s)"
| "handle rnd (Press RandomButton) s = Some (random rnd s)"
| "handle rnd (Press ClearButton) s = Some (clear s)"
| "handle rnd (Press NameButton) s = Some (toggleName s)"
| "handle rnd (Press FullScreenButton) s = Some (fullScreen s)"
| "handle rnd (Press GliderButton) s = addGlider_handler s"
| "handle rnd (Press MenuButton) s = Some (toggleControls s)"
| "handle rnd Tick s = Some (tick s)"
| "handle rnd (Intersect b) s = Some (s\<lparr>inView := b\<rparr>)"

text \<open>An event: its handler, then the effects until the state is stable.\<close>

definition fire :: "(nat \<Rightarrow> real) \<Rightarrow> event \<Rightarrow> state \<Rightarrow> state option" where
  "fire rnd e s = map_option (settle s) (handle rnd e s)"

section \<open>Notions used to state the properties\<close>

definition rectangular :: "grid \<Rightarrow> nat \<Rightarrow> nat \<Rightarrow> bool" where
  "rectangular g rows cols = (length g = rows \<and> list_all (\<lambda>row. length row = cols) g)"

text \<open>
  The toroidal neighbourhood as the specification words it: the eight offsets around a
  cell, with the row index taken modulo \<open>rows\<close> and the column index modulo \<open>cols\<close>.
  A position that several offsets reach (in a grid with fewer than three rows or
  columns) is listed once per offset.
\<close>

definition offsets :: "(int \<times> int) list" where
  "offsets = [(-1, -1), (-1, 0), (-1, 1), (0, -1), (0, 1), (1, -1), (1, 0), (1, 1)]"

definition torus_neighbours :: "nat \<Rightarrow> nat \<Rightarrow> nat \<Rightarrow> nat \<Rightarrow> (nat \<times> nat) list" where
  "torus_neighbours rows cols r c =
     map (\<lambda>(i, j). (nat ((int r + i) mod int rows), nat ((int c + j) mod int cols))) offsets"

definition live_neighbours :: "grid \<Rightarrow> nat \<Rightarrow> nat \<Rightarrow> nat \<Rightarrow> nat \<Rightarrow> nat" where
  "live_neighbours g rows cols r c =
     length (filter (\<lambda>(r', c'). g ! r' ! c') (torus_neighbours rows cols r c))"

text \<open>The glider as the specification lists it: the offsets of its live cells.\<close>

definition glider_alive :: "(int \<times> int) list" where
  "glider_alive = [(0, 0), (0, 1), (0, 2), (1, 0), (2, 1)]"

definition in_footprint :: "int \<Rightarrow> int \<Rightarrow> nat \<Rightarrow> nat \<Rightarrow> bool" where
  "in_footprint ar ac r c =
     (ar \<le> int r \<and> int r < ar + 3 \<and> ac \<le> int c \<and> int c < ac + 3)"

definition all_dead :: "grid \<Rightarrow> bool" where
  "all_dead g = list_all (list_all (\<lambda>c. \<not> c)) g"

text \<open>
  A grid of the given size whose only live cells are the 2 by 2 block with top left
  corner \<open>(r, c)\<close>.
\<close>

definition block_grid :: "nat \<Rightarrow> nat \<Rightarrow> nat \<Rightarrow> nat \<Rightarrow> grid" where
  "block_grid rows cols r c =
     map (\<lambda>i. map (\<lambda>j. (i = r \<or> i = r + 1) \<and> (j = c \<or> j = c + 1)) [0..<cols]) [0..<rows]"

section \<open>Auxiliary facts\<close>

subsection \<open>Neighbour counting and \<open>updateGrid\<close>\<close>

lemma rectangular_nth:
  "rectangular g rows cols \<Longrightarrow> r < rows \<Longrightarrow> length (g ! r) = cols"
  by (simp add: rectangular_def list_all_length)

lemma rectangularI:
  "length g = rows \<Longrightarrow> (\<And>r. r < rows \<Longrightarrow> length (g ! r) = cols) \<Longrightarrow> rectangular g rows cols"
  by (simp add: rectangular_def list_all_length)

lemma length_updateGrid: "length (updateGrid g) = length g"
  by (simp add: updateGrid_def)

lemma updateGrid_row:
  "r < length g \<Longrightarrow> length (updateGrid g ! r) = length (g ! r)"
  by (simp add: updateGrid_def nth_enumerate_eq)

lemma updateGrid_cell:
  "r < length g \<Longrightarrow> c < length (g ! r) \<Longrightarrow>
   updateGrid g ! r ! c = next_cell (g ! r ! c) (countNeighbors g (int r) (int c))"
  by (simp add: updateGrid_def nth_enumerate_eq)

lemma rectangular_updateGrid:
  "rectangular g rows cols \<Longrightarrow> rectangular (updateGrid g) rows cols"
  by (simp add: rectangular_def list_all_length length_updateGrid updateGrid_row)

lemma visit_reads:
  "visit g row col i j n =
   n + length (filter (\<lambda>p. truthy (grid_at g (fst p) (snd p))) (reads_at g row col i j))"
  by (simp add: visit_def reads_at_def split: option.splits)

lemma countNeighbors_reads:
  "countNeighbors g row col =
   length (filter (\<lambda>p. truthy (grid_at g (fst p) (snd p))) (neighbor_reads g row col))"
  by (simp add: countNeighbors_def neighbor_reads_def visit_reads)

lemma js_rem_wrap:
  assumes "0 < n" "0 \<le> a" "a < n" "d = -1 \<or> d = 0 \<or> d = 1"
  shows "js_rem (a + d + n) n = Some ((a + d) mod n)"
proof -
  let ?x = "a + d + n"
  have x: "0 \<le> ?x" using assms by auto
  have "sgn ?x * (\<bar>?x\<bar> mod \<bar>n\<bar>) = ?x mod n"
    using x assms(1) by (cases "?x = 0") (simp_all add: sgn_if)
  also have "\<dots> = (a + d) mod n" by simp
  finally show ?thesis using assms(1) by (simp add: js_rem_def)
qed

lemma numRows_rect: "rectangular g rows cols \<Longrightarrow> numRows g = int rows"
  by (simp add: rectangular_def numRows_def)

lemma numCols_rect:
  "rectangular g rows cols \<Longrightarrow> 0 < rows \<Longrightarrow> numCols g = int cols"
  by (cases g) (auto simp: rectangular_def numCols_def js_index_def)

lemma reads_at_rect:
  assumes "rectangular g rows cols" "r < rows" "c < cols" 
    and "i = -1 \<or> i = 0 \<or> i = 1" "j = -1 \<or> j = 0 \<or> j = 1"
  shows "reads_at g (int r) (int c) i j =
     (if i = 0 \<and> j = 0 then [] else [((int r + i) mod int rows, (int c + j) mod int cols)])"
proof -
  have nr: "numRows g = int rows" using assms(1) by (rule numRows_rect)
  have nc: "numCols g = int cols" using assms(1,2) by (simp add: numCols_rect)
  have a: "neighborsRow g (int r) i = Some ((int r + i) mod int rows)"
    unfolding neighborsRow_def nr using assms(2,4) by (intro js_rem_wrap) auto
  have b: "neighborsColumn g (int c) j = Some ((int c + j) mod int cols)"
    unfolding neighborsColumn_def nc using assms(3,5) by (intro js_rem_wrap) auto
  show ?thesis using assms(2,3)
    by (simp add: reads_at_def a b within_grid_def nr nc)
qed

lemma grid_at_rect:
  assumes "rectangular g rows cols" "0 \<le> r" "r < int rows" "0 \<le> c" "c < int cols"
  shows "grid_at g r c = Some (g ! nat r ! nat c)"
  using assms by (auto simp: grid_at_def js_index_def rectangular_def list_all_length)

lemma neighbor_reads_rect:
  assumes "rectangular g rows cols" "r < rows" "c < cols"
  shows "neighbor_reads g (int r) (int c) =
     map (\<lambda>(i, j). ((int r + i) mod int rows, (int c + j) mod int cols)) offsets"
  unfolding neighbor_reads_def offsets_def
  by (simp add: reads_at_rect [OF assms])

lemma countNeighbors_torus:
  assumes "rectangular g rows cols" "r < rows" "c < cols"
  shows "countNeighbors g (int r) (int c) = live_neighbours g rows cols r c"
proof -
  have m: "grid_at g ((int r + i) mod int rows) ((int c + j) mod int cols) =
      Some (g ! nat ((int r + i) mod int rows) ! nat ((int c + j) mod int cols))" for i j
    using assms by (intro grid_at_rect) auto
  show ?thesis
    unfolding countNeighbors_reads neighbor_reads_rect [OF assms]
      live_neighbours_def torus_neighbours_def
    by (simp add: filter_map o_def m truthy_def split_def)
qed

lemma corner_is_neighbour:
  assumes "0 < rows" "0 < cols"
  shows "(rows - 1, cols - 1) \<in> set (torus_neighbours rows cols 0 0)"
proof -
  have "(-1) mod int rows = int rows - 1" "(-1) mod int cols = int cols - 1"
    using assms by (simp_all add: zmod_minus1)
  then have "(nat ((int 0 + (-1)) mod int rows), nat ((int 0 + (-1)) mod int cols)) =
      (rows - 1, cols - 1)" by (simp add: nat_diff_distrib')
  moreover have "(-1, -1) \<in> set offsets" by (simp add: offsets_def)
  ultimately show ?thesis
    unfolding torus_neighbours_def by (metis (mono_tags, lifting) image_eqI list.set_map case_prod_conv)
qed

subsection \<open>\<open>toggleCell\<close> and \<open>addGlider\<close>\<close>

lemma length_toggleCell: "length (toggleCell g x y) = length g"
  by (simp add: toggleCell_def Let_def)

lemma toggleCell_row:
  "r < length g \<Longrightarrow> length (toggleCell g x y ! r) = length (g ! r)"
  by (simp add: toggleCell_def Let_def nth_enumerate_eq)

lemma toggleCell_cell:
  "r < length g \<Longrightarrow> c < length (g ! r) \<Longrightarrow>
   toggleCell g x y ! r ! c =
     (if (int r, int c) = pointer_cell x y then \<not> g ! r ! c else g ! r ! c)"
  by (cases "pointer_cell x y") (simp add: toggleCell_def Let_def nth_enumerate_eq)

lemma rectangular_toggleCell:
  "rectangular g rows cols \<Longrightarrow> rectangular (toggleCell g x y) rows cols"
  by (simp add: rectangular_def list_all_length length_toggleCell toggleCell_row)

lemma grid_eqI:
  assumes "length g' = length g"
    and "\<And>r. r < length g \<Longrightarrow> length (g' ! r) = length (g ! r)"
    and "\<And>r c. r < length g \<Longrightarrow> c < length (g ! r) \<Longrightarrow> g' ! r ! c = g ! r ! c"
  shows "g' = (g :: grid)"
proof (rule nth_equalityI)
  show "length g' = length g" by fact
next
  fix r assume "r < length g'"
  then have r: "r < length g" using assms(1) by simp
  show "g' ! r = g ! r"
    by (rule nth_equalityI) (simp_all add: assms(2) [OF r] assms(3) [OF r])
qed

lemma toggleCell_twice: "toggleCell (toggleCell g x y) x y = g"
  by (rule grid_eqI)
     (simp_all add: length_toggleCell toggleCell_row toggleCell_cell)

lemma toggleCell_outside:
  assumes "\<not> (0 \<le> fst (pointer_cell x y) \<and> fst (pointer_cell x y) < int (length g) \<and>
              0 \<le> snd (pointer_cell x y) \<and>
              snd (pointer_cell x y) < int (length (g ! nat (fst (pointer_cell x y)))))"
  shows "toggleCell g x y = g"
proof (rule grid_eqI)
  fix r c assume "r < length g" "c < length (g ! r)"
  moreover from this assms have "(int r, int c) \<noteq> pointer_cell x y"
    by (cases "pointer_cell x y") auto
  ultimately show "toggleCell g x y ! r ! c = g ! r ! c"
    by (simp add: toggleCell_cell)
qed (simp_all add: length_toggleCell toggleCell_row)

lemma glider_at:
  assumes "0 \<le> a" "a < 3" "0 \<le> b" "b < 3"
  shows "grid_at glider a b = Some ((a, b) \<in> set glider_alive)"
proof -
  have "a = 0 \<or> a = 1 \<or> a = 2" "b = 0 \<or> b = 1 \<or> b = 2" using assms by auto
  then show ?thesis
    by (elim disjE) (simp_all add: grid_at_def js_index_def glider_def glider_alive_def)
qed

lemma glider_width_3: "glider_width = 3" "int (length glider) = 3"
  by (simp_all add: glider_width_def glider_def js_index_def)

lemma length_addGlider_cells: "length (addGlider_cells g m) = length g"
  by (simp add: addGlider_cells_def)

lemma addGlider_cells_row:
  "r < length g \<Longrightarrow> length (addGlider_cells g m ! r) = length (g ! r)"
  by (simp add: addGlider_cells_def nth_enumerate_eq)

lemma addGlider_cells_cell:
  assumes "r < length g" "c < length (g ! r)"
  shows "addGlider_cells g m ! r ! c =
     Some (if in_footprint (inputRow m) (inputColumn m) r c
           then (int r - inputRow m, int c - inputColumn m) \<in> set glider_alive
           else g ! r ! c)"
proof (cases "in_footprint (inputRow m) (inputColumn m) r c")
  case True
  then have "grid_at glider (int r - inputRow m) (int c - inputColumn m) =
      Some ((int r - inputRow m, int c - inputColumn m) \<in> set glider_alive)"
    by (intro glider_at) (auto simp: in_footprint_def)
  with True assms show ?thesis
    by (simp add: addGlider_cells_def nth_enumerate_eq glider_width_3 in_footprint_def)
next
  case False
  with assms show ?thesis
    by (auto simp: addGlider_cells_def nth_enumerate_eq glider_width_3 in_footprint_def)
qed

lemma addGlider_cells_defined:
  "list_all (list_all (\<lambda>v. v \<noteq> None)) (addGlider_cells g m)"
  unfolding list_all_length
proof (intro allI impI)
  fix r c assume "r < length (addGlider_cells g m)" "c < length (addGlider_cells g m ! r)"
  then have "r < length g" "c < length (g ! r)"
    by (simp_all add: length_addGlider_cells addGlider_cells_row)
  then show "addGlider_cells g m ! r ! c \<noteq> None"
    by (simp add: addGlider_cells_cell)
qed

lemma addGlider_Some: "addGlider g m = Some (map (map the) (addGlider_cells g m))"
  unfolding addGlider_def as_Grid_def using addGlider_cells_defined [of g m] by (simp only: if_True)

lemma addGlider_result:
  "\<exists>g'. addGlider g m = Some g' \<and> length g' = length g \<and>
     (\<forall>r < length g. length (g' ! r) = length (g ! r) \<and>
        (\<forall>c < length (g ! r).
           g' ! r ! c =
             (if in_footprint (inputRow m) (inputColumn m) r c
              then (int r - inputRow m, int c - inputColumn m) \<in> set glider_alive
              else g ! r ! c)))"
  by (simp add: addGlider_Some length_addGlider_cells addGlider_cells_row
      addGlider_cells_cell)

lemma rectangular_addGlider:
  "rectangular g rows cols \<Longrightarrow> \<exists>g'. addGlider g m = Some g' \<and> rectangular g' rows cols"
  using addGlider_result [of g m] by (auto simp: rectangular_def list_all_length)

lemma all_dead_nth: "all_dead g \<Longrightarrow> r < length g \<Longrightarrow> c < length (g ! r) \<Longrightarrow> \<not> g ! r ! c"
  by (simp add: all_dead_def list_all_length)

subsection \<open>Effects and handlers\<close>

lemma cells_settle: "cells (settle prev cur) = cells cur"
proof (induction prev cur rule: settle.induct)
  case (1 prev cur)
  show ?case
  proof (cases "inView_changed prev cur \<or> running_deps_changed prev cur")
    case True
    then have "settle prev cur = settle cur (effects prev cur)" by (subst settle.simps) simp
    with 1 True show ?thesis by (simp add: effects_def)
  next
    case False
    then show ?thesis by (subst settle.simps) simp
  qed
qed

lemma settle_same_flags:
  "inView cur = inView prev \<Longrightarrow> systemRunning cur = systemRunning prev \<Longrightarrow>
   userRunning cur = userRunning prev \<Longrightarrow> settle prev cur = cur"
  by (subst settle.simps) (simp add: inView_changed_def running_deps_changed_def)

lemma HEIGHT_rows: "HEIGHT div CELL_SIZE = 108"
  by (simp add: HEIGHT_def CELL_SIZE_def)

lemma WIDTH_cols: "WIDTH div CELL_SIZE = 192"
  by (simp add: WIDTH_def CELL_SIZE_def)

lemma rectangular_fresh_grid: "rectangular (fresh_grid f) 108 192"
  by (simp add: rectangular_def fresh_grid_def HEIGHT_rows WIDTH_cols list_all_iff)

lemma addGlider_handler_shape:
  assumes "rectangular (cells s) 108 192"
  shows "\<exists>s'. addGlider_handler s = Some s' \<and> rectangular (cells s') 108 192"
proof -
  obtain g' where "addGlider (cells s) (mouseOverCell s) = Some g'" "rectangular g' 108 192"
    using rectangular_addGlider [OF assms] by blast
  then show ?thesis by (simp add: addGlider_handler_def)
qed

lemma step_shape: "rectangular (cells s) 108 192 \<Longrightarrow> rectangular (cells (step s)) 108 192"
  by (simp add: step_def rectangular_updateGrid)

lemma random_shape: "rectangular (cells (random rnd s)) 108 192"
  by (simp add: random_def random_grid_def rectangular_fresh_grid)

lemma clear_shape: "rectangular (cells (clear s)) 108 192"
  by (simp add: clear_def clear_grid_def rectangular_fresh_grid)

lemma handleKeyDown_shape:
  assumes "rectangular (cells s) 108 192"
  shows "\<exists>s'. handleKeyDown rnd key s = Some s' \<and> rectangular (cells s') 108 192"
  unfolding handleKeyDown_def
  using assms addGlider_handler_shape [OF assms] step_shape [OF assms]
  by (simp add: random_shape clear_shape toggleControls_def toggleName_def fullScreen_def)

lemma handle_shape:
  assumes "rectangular (cells s) 108 192"
  shows "\<exists>s'. handle rnd e s = Some s' \<and> rectangular (cells s') 108 192"
proof (cases e)
  case (Click x y)
  then show ?thesis using assms by (simp add: toggleCell_handler_def rectangular_toggleCell)
next
  case (MouseMove x y)
  then show ?thesis using assms by (simp add: handleMouseOver_def)
next
  case MouseOut
  then show ?thesis using assms by (simp add: handleMouseOut_def)
next
  case (KeyDown key)
  then show ?thesis using handleKeyDown_shape [OF assms] by simp
next
  case (Press b)
  then show ?thesis
    using assms addGlider_handler_shape [OF assms] step_shape [OF assms]
    by (cases b) (simp_all add: handleRunClick_def random_shape clear_shape toggleName_def
        fullScreen_def toggleControls_def)
next
  case Tick
  then show ?thesis using assms by (simp add: tick_def rectangular_updateGrid)
next
  case (Intersect b)
  then show ?thesis using assms by simp
qed

lemma fire_shape:
  assumes "rectangular (cells s) 108 192"
  shows "\<exists>s'. fire rnd e s = Some s' \<and> rectangular (cells s') 108 192"
proof -
  obtain s1 where "handle rnd e s = Some s1" "rectangular (cells s1) 108 192"
    using handle_shape [OF assms] by blast
  then show ?thesis by (simp add: fire_def cells_settle)
qed

lemma fire_step: "fire rnd (KeyDown ''s'') s = Some (step s)"
  "fire rnd (Press StepButton) s = Some (step s)"
  by (simp_all add: fire_def handleKeyDown_def step_def settle_same_flags)

lemma all_dead_grid_at: "all_dead g \<Longrightarrow> \<not> truthy (grid_at g a b)"
  by (auto simp: truthy_def grid_at_def js_index_def all_dead_def list_all_length
      split: option.splits if_splits)

lemma all_dead_count: "all_dead g \<Longrightarrow> countNeighbors g row col = 0"
  by (simp add: countNeighbors_reads all_dead_grid_at)

lemma updateGrid_all_dead:
  assumes "all_dead g"
  shows "updateGrid g = g"
proof (rule grid_eqI)
  fix r c assume rc: "r < length g" "c < length (g ! r)"
  then have "\<not> g ! r ! c" using assms by (simp add: all_dead_nth)
  then show "updateGrid g ! r ! c = g ! r ! c"
    using rc by (simp add: updateGrid_cell all_dead_count [OF assms] next_cell_def)
qed (simp_all add: length_updateGrid updateGrid_row)

lemma all_dead_clear_grid: "all_dead clear_grid"
  by (simp add: all_dead_def clear_grid_def fresh_grid_def list_all_iff)

lemma fire_clear: "fire rnd (KeyDown ''c'') s = Some (clear s)"
  by (simp add: fire_def handleKeyDown_def clear_def settle_same_flags)

lemma fire_click:
  "handle rnd (Click x y) s = Some (s\<lparr>cells := toggleCell (cells s) x y\<rparr>)"
  "fire rnd (Click x y) s = Some (s\<lparr>cells := toggleCell (cells s) x y\<rparr>)"
  by (simp_all add: fire_def toggleCell_handler_def settle_same_flags)

lemma fire_glider:
  assumes "addGlider (cells s) (mouseOverCell s) = Some g'"
  shows "addGlider_handler s = Some (s\<lparr>cells := g'\<rparr>)"
    and "handle rnd (KeyDown ''g'') s = Some (s\<lparr>cells := g'\<rparr>)"
    and "handle rnd (Press GliderButton) s = Some (s\<lparr>cells := g'\<rparr>)"
    and "fire rnd (KeyDown ''g'') s = Some (s\<lparr>cells := g'\<rparr>)"
    and "fire rnd (Press GliderButton) s = Some (s\<lparr>cells := g'\<rparr>)"
  using assms
  by (simp_all add: fire_def handleKeyDown_def addGlider_handler_def settle_same_flags)

subsection \<open>The block grid\<close>

lemma length_block_grid: "length (block_grid rows cols r c) = rows"
  by (simp add: block_grid_def)

lemma block_grid_row: "i < rows \<Longrightarrow> length (block_grid rows cols r c ! i) = cols"
  by (simp add: block_grid_def)

lemma block_grid_cell:
  "i < rows \<Longrightarrow> j < cols \<Longrightarrow>
   block_grid rows cols r c ! i ! j = ((i = r \<or> i = r + 1) \<and> (j = c \<or> j = c + 1))"
  by (simp add: block_grid_def)

lemma rectangular_block_grid: "rectangular (block_grid rows cols r c) rows cols"
  by (rule rectangularI) (simp_all add: length_block_grid block_grid_row)

lemma wrap_away_from_edge:
  assumes "i < n" "1 \<le> r" "r + 2 < n" "d = -1 \<or> d = 0 \<or> d = 1"
  shows "(nat ((int i + d) mod int n) = r \<or> nat ((int i + d) mod int n) = r + 1) =
         (int i + d = int r \<or> int i + d = int r + 1)"
proof -
  consider "int i + d = -1" | "int i + d = int n" | "0 \<le> int i + d" "int i + d < int n"
    using assms by linarith
  then show ?thesis
  proof cases
    case 1
    then have "(int i + d) mod int n = int n - 1" using assms by (simp add: zmod_minus1)
    with 1 assms show ?thesis by auto
  next
    case 2
    then have "(int i + d) mod int n = 0" by simp
    with 2 assms show ?thesis by auto
  next
    case 3
    then have "(int i + d) mod int n = int i + d" by simp
    with 3 show ?thesis by auto
  qed
qed

lemma block_rule:
  fixes a b :: "int \<Rightarrow> bool"
  assumes "a 0 \<Longrightarrow> a (-1) \<noteq> a 1" "\<not> a 0 \<Longrightarrow> \<not> (a (-1) \<and> a 1)"
    and "b 0 \<Longrightarrow> b (-1) \<noteq> b 1" "\<not> b 0 \<Longrightarrow> \<not> (b (-1) \<and> b 1)"
  shows "next_cell (a 0 \<and> b 0) (length (filter (\<lambda>(i, j). a i \<and> b j) offsets)) = (a 0 \<and> b 0)"
  using assms unfolding offsets_def next_cell_def
  by (cases "a 0"; cases "a 1"; cases "a (-1)"; cases "b 0"; cases "b 1"; cases "b (-1)") simp_all

lemma offsets_range:
  "(di, dj) \<in> set offsets \<Longrightarrow>
   (di = -1 \<or> di = 0 \<or> di = 1) \<and> (dj = -1 \<or> dj = 0 \<or> dj = 1)"
  by (auto simp: offsets_def)

lemma block_live_neighbours:
  assumes "1 \<le> r" "r + 2 < rows" "1 \<le> c" "c + 2 < cols" "i < rows" "j < cols"
  shows "live_neighbours (block_grid rows cols r c) rows cols i j =
     length (filter (\<lambda>(di, dj). (int i + di = int r \<or> int i + di = int r + 1) \<and>
                               (int j + dj = int c \<or> int j + dj = int c + 1)) offsets)"
proof -
  have "block_grid rows cols r c ! nat ((int i + di) mod int rows) ! nat ((int j + dj) mod int cols) =
      ((int i + di = int r \<or> int i + di = int r + 1) \<and>
       (int j + dj = int c \<or> int j + dj = int c + 1))"
    if "di = -1 \<or> di = 0 \<or> di = 1" "dj = -1 \<or> dj = 0 \<or> dj = 1" for di dj
  proof -
    have "nat ((int i + di) mod int rows) < rows" "nat ((int j + dj) mod int cols) < cols"
      using assms by (simp_all add: nat_less_iff)
    then show ?thesis
      using wrap_away_from_edge [OF assms(5,1,2) that(1)]
        wrap_away_from_edge [OF assms(6,3,4) that(2)]
      by (simp add: block_grid_cell)
  qed
  note key = this
  let ?P = "\<lambda>(r', c'). block_grid rows cols r c ! r' ! c'"
  let ?f = "\<lambda>(di, dj). (nat ((int i + di) mod int rows), nat ((int j + dj) mod int cols))"
  let ?Q = "\<lambda>(di, dj). (int i + di = int r \<or> int i + di = int r + 1) \<and>
                       (int j + dj = int c \<or> int j + dj = int c + 1)"
  have "filter (?P \<circ> ?f) offsets = filter ?Q offsets"
  proof (rule filter_cong [OF refl])
    fix x assume x: "x \<in> set offsets"
    obtain di dj where xd: "x = (di, dj)" by (cases x)
    have "di = -1 \<or> di = 0 \<or> di = 1" "dj = -1 \<or> dj = 0 \<or> dj = 1"
      using x offsets_range [of di dj] unfolding xd by blast+
    then show "(?P \<circ> ?f) x = ?Q x" using key by (simp add: xd)
  qed
  then show ?thesis
    unfolding live_neighbours_def torus_neighbours_def
    by (simp add: filter_map)
qed

lemma updateGrid_block:
  assumes "1 \<le> r" "r + 2 < rows" "1 \<le> c" "c + 2 < cols"
  shows "updateGrid (block_grid rows cols r c) = block_grid rows cols r c"
proof (rule grid_eqI)
  let ?B = "block_grid rows cols r c"
  show "length (updateGrid ?B) = length ?B" by (rule length_updateGrid)
  show "length (updateGrid ?B ! i) = length (?B ! i)" if "i < length ?B" for i
    using that by (rule updateGrid_row)
  fix i j assume "i < length ?B" "j < length (?B ! i)"
  then have ij: "i < rows" "j < cols" by (simp_all add: length_block_grid block_grid_row)
  let ?a = "\<lambda>d. int i + d = int r \<or> int i + d = int r + 1"
  let ?b = "\<lambda>d. int j + d = int c \<or> int j + d = int c + 1"
  have cell: "?B ! i ! j = (?a 0 \<and> ?b 0)" using ij by (auto simp: block_grid_cell)
  have "countNeighbors ?B (int i) (int j) = live_neighbours ?B rows cols i j"
    using rectangular_block_grid ij by (rule countNeighbors_torus)
  also have "\<dots> = length (filter (\<lambda>(di, dj). ?a di \<and> ?b dj) offsets)"
    using assms ij by (rule block_live_neighbours)
  finally have "updateGrid ?B ! i ! j =
      next_cell (?a 0 \<and> ?b 0) (length (filter (\<lambda>(di, dj). ?a di \<and> ?b dj) offsets))"
    using ij cell by (simp add: updateGrid_cell length_block_grid block_grid_row)
  also have "\<dots> = (?a 0 \<and> ?b 0)"
    by (rule block_rule) auto
  finally show "updateGrid ?B ! i ! j = ?B ! i ! j" using cell by simp
qed

subsection \<open>Reads of the grid\<close>

lemma reads_at_guard:
  "p \<in> set (reads_at g row col i j) \<Longrightarrow>
   0 \<le> fst p \<and> fst p < numRows g \<and> 0 \<le> snd p \<and> snd p < numCols g"
  by (auto simp: reads_at_def within_grid_def split: if_splits option.splits)

lemma neighbor_reads_guard:
  assumes "p \<in> set (neighbor_reads g row col)"
  shows "0 \<le> fst p \<and> fst p < numRows g \<and> 0 \<le> snd p \<and> snd p < numCols g"
proof -
  from assms obtain i j where "p \<in> set (reads_at g row col i j)"
    unfolding neighbor_reads_def by auto
  then show ?thesis by (rule reads_at_guard)
qed

lemma neighbor_reads_in_range:
  assumes "rectangular g rows cols" "p \<in> set (neighbor_reads g row col)"
  shows "0 \<le> fst p \<and> fst p < int rows \<and> 0 \<le> snd p \<and> snd p < int cols \<and>
         grid_at g (fst p) (snd p) \<noteq> None"
proof -
  note gd = neighbor_reads_guard [OF assms(2)]
  have nr: "numRows g = int rows" using assms(1) by (rule numRows_rect)
  with gd have "0 < rows" by simp
  then have nc: "numCols g = int cols" using assms(1) by (simp add: numCols_rect)
  have b: "0 \<le> fst p" "fst p < int rows" "0 \<le> snd p" "snd p < int cols"
    using gd unfolding nr nc by blast+
  have "grid_at g (fst p) (snd p) = Some (g ! nat (fst p) ! nat (snd p))"
    using assms(1) b by (rule grid_at_rect)
  with b show ?thesis by simp
qed

lemma remainders_defined:
  assumes "rectangular g rows cols" "r < rows" "c < cols"
  shows "neighborsRow g row i \<noteq> None \<and> neighborsColumn g col j \<noteq> None"
proof -
  have "numRows g \<noteq> 0" using assms by (simp add: numRows_rect)
  moreover have "numCols g \<noteq> 0" using assms numCols_rect [OF assms(1)] by simp
  ultimately show ?thesis by (simp add: neighborsRow_def neighborsColumn_def js_rem_def)
qed

lemma toggleCell_outside_rect:
  assumes "rectangular g rows cols"
    and "\<not> (0 \<le> \<lfloor>y / 10\<rfloor> \<and> \<lfloor>y / 10\<rfloor> < int rows \<and> 0 \<le> \<lfloor>x / 10\<rfloor> \<and> \<lfloor>x / 10\<rfloor> < int cols)"
  shows "toggleCell g x y = g"
proof (rule toggleCell_outside)
  have p: "pointer_cell x y = (\<lfloor>y / 10\<rfloor>, \<lfloor>x / 10\<rfloor>)"
    by (simp add: pointer_cell_def CELL_SIZE_def)
  have len: "length g = rows" using assms(1) by (simp add: rectangular_def)
  show "\<not> (0 \<le> fst (pointer_cell x y) \<and> fst (pointer_cell x y) < int (length g) \<and>
       0 \<le> snd (pointer_cell x y) \<and>
       snd (pointer_cell x y) < int (length (g ! nat (fst (pointer_cell x y)))))"
  proof
    assume a: "0 \<le> fst (pointer_cell x y) \<and> fst (pointer_cell x y) < int (length g) \<and>
       0 \<le> snd (pointer_cell x y) \<and>
       snd (pointer_cell x y) < int (length (g ! nat (fst (pointer_cell x y))))"
    then have b: "0 \<le> \<lfloor>y / 10\<rfloor>" "\<lfloor>y / 10\<rfloor> < int rows" "0 \<le> \<lfloor>x / 10\<rfloor>"
      "\<lfloor>x / 10\<rfloor> < int (length (g ! nat \<lfloor>y / 10\<rfloor>))"
      unfolding p len fst_conv snd_conv by blast+
    from b(1,2) have "nat \<lfloor>y / 10\<rfloor> < rows" by linarith
    then have "length (g ! nat \<lfloor>y / 10\<rfloor>) = cols" using assms(1) by (simp add: rectangular_nth)
    with b assms(2) show False by simp
  qed
qed

lemma fire_defined: "\<exists>s'. fire rnd e s = Some s'"
proof -
  have "\<exists>s'. handle rnd e s = Some s'"
  proof (cases e)
    case (KeyDown key)
    then show ?thesis
      by (simp add: handleKeyDown_def addGlider_handler_def addGlider_Some)
  next
    case (Press b)
    then show ?thesis by (cases b) (simp_all add: addGlider_handler_def addGlider_Some)
  qed simp_all
  then show ?thesis by (auto simp: fire_def)
qed

section \<open>Properties\<close>

subsection \<open>The transition rule on the torus\<close>

text \<open>
  Claim C1. On a rectangular grid with at least one cell, \<open>updateGrid\<close> keeps the shape,
  and \<open>countNeighbors\<close> at a cell is the number of live entries among the eight
  positions around it, row and column indices taken modulo \<open>rows\<close> and \<open>cols\<close>. A live
  cell is live in the next generation iff that number is 2 or 3, a dead cell iff it is 3.
  The position \<open>(rows - 1, cols - 1)\<close> is among the eight positions around \<open>(0, 0)\<close>, so a
  live cell there is counted by \<open>countNeighbors\<close> at \<open>(0, 0)\<close>.
\<close>

theorem updateGrid_conway_torus:
  assumes "rectangular g rows cols" "r < rows" "c < cols"
  shows "rectangular (updateGrid g) rows cols \<and>
         countNeighbors g (int r) (int c) = live_neighbours g rows cols r c \<and>
         (g ! r ! c \<longrightarrow>
            updateGrid g ! r ! c =
              (live_neighbours g rows cols r c = 2 \<or> live_neighbours g rows cols r c = 3)) \<and>
         (\<not> g ! r ! c \<longrightarrow>
            updateGrid g ! r ! c = (live_neighbours g rows cols r c = 3)) \<and>
         (rows - 1, cols - 1) \<in> set (torus_neighbours rows cols 0 0) \<and>
         (g ! (rows - 1) ! (cols - 1) \<longrightarrow> 1 \<le> countNeighbors g 0 0)"
proof -
  have pos: "0 < rows" "0 < cols" using assms by auto
  have len: "r < length g" "c < length (g ! r)"
    using assms rectangular_nth [OF assms(1,2)] by (simp_all add: rectangular_def)
  have cnt: "countNeighbors g (int r) (int c) = live_neighbours g rows cols r c"
    using assms by (rule countNeighbors_torus)
  have cell: "updateGrid g ! r ! c = next_cell (g ! r ! c) (live_neighbours g rows cols r c)"
    using updateGrid_cell [OF len] cnt by simp
  have corner: "(rows - 1, cols - 1) \<in> set (torus_neighbours rows cols 0 0)"
    using pos by (rule corner_is_neighbour)
  have wrap: "1 \<le> countNeighbors g 0 0" if "g ! (rows - 1) ! (cols - 1)"
  proof -
    have "countNeighbors g (int 0) (int 0) = live_neighbours g rows cols 0 0"
      using assms(1) pos by (rule countNeighbors_torus)
    moreover have "(rows - 1, cols - 1) \<in>
        set (filter (\<lambda>(r', c'). g ! r' ! c') (torus_neighbours rows cols 0 0))"
      using corner that by simp
    then have "0 < live_neighbours g rows cols 0 0"
      unfolding live_neighbours_def by (metis length_pos_if_in_set)
    ultimately show ?thesis by simp
  qed
  show ?thesis
    using rectangular_updateGrid [OF assms(1)] cnt cell corner wrap
    by (simp add: next_cell_def)
qed

theorem updateGrid_conway_torus_witness:
  "rectangular [[True, True, False], [False, False, False], [False, False, True]] 3 3 \<and>
   (0::nat) < 3 \<and>
   countNeighbors [[True, True, False], [False, False, False], [False, False, True]] 0 0 = 2 \<and>
   updateGrid [[True, True, False], [False, False, False], [False, False, True]] ! 0 ! 0"
  using updateGrid_conway_torus
    [of "[[True, True, False], [False, False, False], [False, False, True]]" 3 3 0 0]
  by (simp add: rectangular_def live_neighbours_def torus_neighbours_def offsets_def)

subsection \<open>The derived flag \<open>running\<close>\<close>

text \<open>
  Claim C2 says that \<open>running\<close> equals \<open>userRunning \<and> systemRunning\<close> in every
  reachable state, that every handler including the one of the key p keeps it so, and that
  the timer does not advance the grid while \<open>systemRunning\<close> is false. The component does
  otherwise: the key p writes \<open>running\<close> itself, and no effect depends on \<open>running\<close>
  alone, so nothing restores it. Evaluated from the mounted, not yet visible widget: p turns
  \<open>running\<close> on while \<open>systemRunning\<close> is false, and the next timer tick replaces the
  grid. Evaluated after the widget became visible: p turns \<open>running\<close> off while
  \<open>userRunning\<close> and \<open>systemRunning\<close> are both true. The space key, from the same
  state, changes \<open>userRunning\<close> and \<open>running\<close> follows.
\<close>

theorem p_key_bypasses_derived_running:
  "mount rnd False name setter =
     \<lparr>cells = random_grid rnd, mouseOverCell = None, systemRunning = False,
      userRunning = True, running = False, showControls = False, inView = False,
      showName = name, setShowName = setter\<rparr> \<and>
   fire rnd (KeyDown ''p'') (mount rnd False name setter) =
     Some \<lparr>cells = random_grid rnd, mouseOverCell = None, systemRunning = False,
      userRunning = True, running = True, showControls = False, inView = False,
      showName = name, setShowName = setter\<rparr> \<and>
   fire rnd Tick \<lparr>cells = random_grid rnd, mouseOverCell = None, systemRunning = False,
      userRunning = True, running = True, showControls = False, inView = False,
      showName = name, setShowName = setter\<rparr> =
     Some \<lparr>cells = updateGrid (random_grid rnd), mouseOverCell = None, systemRunning = False,
      userRunning = True, running = True, showControls = False, inView = False,
      showName = name, setShowName = setter\<rparr> \<and>
   fire rnd (Intersect True) (mount rnd False name setter) =
     Some \<lparr>cells = random_grid rnd, mouseOverCell = None, systemRunning = True,
      userRunning = True, running = True, showControls = False, inView = True,
      showName = name, setShowName = setter\<rparr> \<and>
   fire rnd (KeyDown ''p'') \<lparr>cells = random_grid rnd, mouseOverCell = None,
      systemRunning = True, userRunning = True, running = True, showControls = False,
      inView = True, showName = name, setShowName = setter\<rparr> =
     Some \<lparr>cells = random_grid rnd, mouseOverCell = None, systemRunning = True,
      userRunning = True, running = False, showControls = False, inView = True,
      showName = name, setShowName = setter\<rparr> \<and>
   fire rnd (KeyDown '' '') \<lparr>cells = random_grid rnd, mouseOverCell = None,
      systemRunning = True, userRunning = True, running = True, showControls = False,
      inView = True, showName = name, setShowName = setter\<rparr> =
     Some \<lparr>cells = random_grid rnd, mouseOverCell = None, systemRunning = True,
      userRunning = False, running = False, showControls = False, inView = True,
      showName = name, setShowName = setter\<rparr>"
proof -
  have m: "mount rnd False name setter =
     \<lparr>cells = random_grid rnd, mouseOverCell = None, systemRunning = False,
      userRunning = True, running = False, showControls = False, inView = False,
      showName = name, setShowName = setter\<rparr>"
    by (simp add: mount_def initial_state_def Let_def settle.simps effects_def
        inView_changed_def running_deps_changed_def)
  show ?thesis
    unfolding m
    by (simp add: fire_def handleKeyDown_def tick_def settle.simps effects_def
        inView_changed_def running_deps_changed_def)
qed

subsection \<open>Inserting the glider\<close>

text \<open>
  Claim C3. \<open>addGlider\<close> anchors the pattern at \<open>mouseOverCell\<close> when it is set and at
  row 50, column 50 otherwise. Its result always is a grid of the same shape, in which a
  cell inside the 3 by 3 footprint of the anchor is live iff its offset is one of
  \<open>(0,0)\<close>, \<open>(0,1)\<close>, \<open>(0,2)\<close>, \<open>(1,0)\<close>, \<open>(2,1)\<close>, whatever it was before, and
  a cell outside the footprint keeps its value. On an all-dead grid with anchor
  \<open>(5, 5)\<close> the live cells of the result are exactly \<open>(5,5)\<close>, \<open>(5,6)\<close>, \<open>(5,7)\<close>,
  \<open>(6,5)\<close>, \<open>(7,6)\<close>. The key g and the Add Glider button apply \<open>addGlider\<close> to the
  component's grid with its \<open>mouseOverCell\<close> and store the result as the new grid,
  changing nothing else.
\<close>

theorem addGlider_overwrites_footprint:
  "inputRow None = 50 \<and> inputColumn None = 50 \<and>
   inputRow (Some (ar, ac)) = ar \<and> inputColumn (Some (ar, ac)) = ac \<and>
   (\<exists>g'. addGlider g m = Some g' \<and> length g' = length g \<and>
      (\<forall>r < length g. length (g' ! r) = length (g ! r) \<and>
         (\<forall>c < length (g ! r).
            g' ! r ! c =
              (if in_footprint (inputRow m) (inputColumn m) r c
               then (int r - inputRow m, int c - inputColumn m) \<in> set glider_alive
               else g ! r ! c)))) \<and>
   (all_dead g \<longrightarrow>
      (\<exists>g'. addGlider g (Some (5, 5)) = Some g' \<and> length g' = length g \<and>
         (\<forall>r < length g. length (g' ! r) = length (g ! r) \<and>
            (\<forall>c < length (g ! r).
               g' ! r ! c = ((r, c) \<in> set [(5, 5), (5, 6), (5, 7), (6, 5), (7, 6)]))))) \<and>
   (\<exists>g'. addGlider (cells s) (mouseOverCell s) = Some g' \<and>
      addGlider_handler s = Some (s\<lparr>cells := g'\<rparr>) \<and>
      handle rnd (KeyDown ''g'') s = Some (s\<lparr>cells := g'\<rparr>) \<and>
      handle rnd (Press GliderButton) s = Some (s\<lparr>cells := g'\<rparr>) \<and>
      fire rnd (KeyDown ''g'') s = Some (s\<lparr>cells := g'\<rparr>) \<and>
      fire rnd (Press GliderButton) s = Some (s\<lparr>cells := g'\<rparr>))"
proof -
  have dead: "\<exists>g'. addGlider g (Some (5, 5)) = Some g' \<and> length g' = length g \<and>
         (\<forall>r < length g. length (g' ! r) = length (g ! r) \<and>
            (\<forall>c < length (g ! r).
               g' ! r ! c = ((r, c) \<in> set [(5, 5), (5, 6), (5, 7), (6, 5), (7, 6)])))"
    if d: "all_dead g"
  proof -
    obtain g' where g': "addGlider g (Some (5, 5)) = Some g'" "length g' = length g"
      and cellw: "\<And>r c. r < length g \<Longrightarrow> c < length (g ! r) \<Longrightarrow>
         length (g' ! r) = length (g ! r) \<and>
         g' ! r ! c = (if in_footprint 5 5 r c
              then (int r - 5, int c - 5) \<in> set glider_alive else g ! r ! c)"
      and roww: "\<And>r. r < length g \<Longrightarrow> length (g' ! r) = length (g ! r)"
      using addGlider_result [of g "Some (5, 5)"]
      by (auto simp: inputRow_def inputColumn_def)
    have "g' ! r ! c = ((r, c) \<in> set [(5, 5), (5, 6), (5, 7), (6, 5), (7, 6)])"
      if "r < length g" "c < length (g ! r)" for r c
    proof (cases "in_footprint 5 5 r c")
      case True
      then have "g' ! r ! c = ((int r - 5, int c - 5) \<in> set glider_alive)"
        using cellw [OF that] by simp
      also have "\<dots> = ((r, c) \<in> set [(5, 5), (5, 6), (5, 7), (6, 5), (7, 6)])"
        using True unfolding in_footprint_def glider_alive_def by auto
      finally show ?thesis .
    next
      case False
      then have "g' ! r ! c = g ! r ! c" using cellw [OF that] by simp
      moreover have "\<not> g ! r ! c" using d that by (rule all_dead_nth)
      moreover have "(r, c) \<notin> set [(5, 5), (5, 6), (5, 7), (6, 5), (7, 6)]"
        using False by (auto simp: in_footprint_def)
      ultimately show ?thesis by simp
    qed
    with g' roww show ?thesis by simp
  qed
  have stored: "\<exists>g'. addGlider (cells s) (mouseOverCell s) = Some g' \<and>
      addGlider_handler s = Some (s\<lparr>cells := g'\<rparr>) \<and>
      handle rnd (KeyDown ''g'') s = Some (s\<lparr>cells := g'\<rparr>) \<and>
      handle rnd (Press GliderButton) s = Some (s\<lparr>cells := g'\<rparr>) \<and>
      fire rnd (KeyDown ''g'') s = Some (s\<lparr>cells := g'\<rparr>) \<and>
      fire rnd (Press GliderButton) s = Some (s\<lparr>cells := g'\<rparr>)"
    using fire_glider [OF addGlider_Some [of "cells s" "mouseOverCell s"]]
      addGlider_Some [of "cells s" "mouseOverCell s"]
    by blast
  have inputs: "inputRow None = 50 \<and> inputColumn None = 50 \<and>
      inputRow (Some (ar, ac)) = ar \<and> inputColumn (Some (ar, ac)) = ac"
    by (simp add: inputRow_def inputColumn_def)
  show ?thesis
    using inputs addGlider_result [of g m] dead stored by blast
qed

theorem addGlider_overwrites_footprint_witness:
  "all_dead (replicate 8 (replicate 8 False)) \<and>
   (\<exists>g'. fire (\<lambda>k. 0) (KeyDown ''g'')
        \<lparr>cells = replicate 8 (replicate 8 False), mouseOverCell = Some (5, 5),
         systemRunning = True, userRunning = True, running = True, showControls = False,
         inView = True, showName = False, setShowName = False\<rparr> =
      Some \<lparr>cells = g', mouseOverCell = Some (5, 5),
         systemRunning = True, userRunning = True, running = True, showControls = False,
         inView = True, showName = False, setShowName = False\<rparr> \<and>
      addGlider (replicate 8 (replicate 8 False)) (Some (5, 5)) = Some g' \<and>
      g' ! 5 ! 5 \<and> g' ! 5 ! 6 \<and> g' ! 5 ! 7 \<and> g' ! 6 ! 5 \<and> g' ! 7 ! 6 \<and>
      \<not> g' ! 6 ! 6 \<and> \<not> g' ! 6 ! 7 \<and> \<not> g' ! 7 ! 5 \<and> \<not> g' ! 7 ! 7 \<and> \<not> g' ! 4 ! 5)"
proof -
  let ?g = "replicate 8 (replicate 8 False)"
  let ?s = "\<lparr>cells = ?g, mouseOverCell = Some (5, 5),
         systemRunning = True, userRunning = True, running = True, showControls = False,
         inView = True, showName = False, setShowName = False\<rparr>"
  note t = addGlider_overwrites_footprint [of 5 5 ?g "Some (5, 5)" ?s "\<lambda>k. 0"]
  have d: "all_dead ?g" by (simp add: all_dead_def list_all_iff)
  with t obtain g' where g': "addGlider ?g (Some (5, 5)) = Some g'"
    and c: "\<forall>r < length ?g. length (g' ! r) = length (?g ! r) \<and>
            (\<forall>c < length (?g ! r).
               g' ! r ! c = ((r, c) \<in> set [(5, 5), (5, 6), (5, 7), (6, 5), (7, 6)]))"
    by blast
  from t obtain g'' where "addGlider (cells ?s) (mouseOverCell ?s) = Some g''"
    and f: "fire (\<lambda>k. 0) (KeyDown ''g'') ?s = Some (?s\<lparr>cells := g''\<rparr>)"
    by blast
  with g' have "g'' = g'" by simp
  with f have stored: "fire (\<lambda>k. 0) (KeyDown ''g'') ?s =
      Some \<lparr>cells = g', mouseOverCell = Some (5, 5),
         systemRunning = True, userRunning = True, running = True, showControls = False,
         inView = True, showName = False, setShowName = False\<rparr>"
    by simp
  have "g' ! r ! c = ((r, c) \<in> set [(5, 5), (5, 6), (5, 7), (6, 5), (7, 6)])"
    if "r < 8" "c < 8" for r c
    using c that by simp
  then have "g' ! 5 ! 5" "g' ! 5 ! 6" "g' ! 5 ! 7" "g' ! 6 ! 5" "g' ! 7 ! 6"
      "\<not> g' ! 6 ! 6" "\<not> g' ! 6 ! 7" "\<not> g' ! 7 ! 5" "\<not> g' ! 7 ! 7" "\<not> g' ! 4 ! 5"
    by simp_all
  with d g' stored show ?thesis by blast
qed

subsection \<open>Toggling a cell with the pointer\<close>

text \<open>
  Claim C4. A click at the surface position \<open>(x, y)\<close> addresses the cell in row
  \<open>\<lfloor>y / 10\<rfloor>\<close> and column \<open>\<lfloor>x / 10\<rfloor>\<close>. \<open>toggleCell\<close> keeps the shape of the grid,
  negates that cell and leaves every other cell as it was; toggling twice at the same
  position gives the original grid back. A click on the canvas stores \<open>toggleCell\<close> of
  the component's grid as the new grid and changes nothing else, so a second click at
  the same position restores the state.
\<close>

theorem toggleCell_involution:
  "pointer_cell x y = (\<lfloor>y / 10\<rfloor>, \<lfloor>x / 10\<rfloor>) \<and>
   length (toggleCell g x y) = length g \<and>
   (\<forall>r < length g. length (toggleCell g x y ! r) = length (g ! r) \<and>
      (\<forall>c < length (g ! r).
         toggleCell g x y ! r ! c =
           (if int r = \<lfloor>y / 10\<rfloor> \<and> int c = \<lfloor>x / 10\<rfloor> then \<not> g ! r ! c else g ! r ! c))) \<and>
   toggleCell (toggleCell g x y) x y = g \<and>
   handle rnd (Click x y) s = Some (s\<lparr>cells := toggleCell (cells s) x y\<rparr>) \<and>
   fire rnd (Click x y) s = Some (s\<lparr>cells := toggleCell (cells s) x y\<rparr>) \<and>
   fire rnd (Click x y) (s\<lparr>cells := toggleCell (cells s) x y\<rparr>) = Some s"
proof -
  have p: "pointer_cell x y = (\<lfloor>y / 10\<rfloor>, \<lfloor>x / 10\<rfloor>)"
    by (simp add: pointer_cell_def CELL_SIZE_def)
  have "toggleCell g x y ! r ! c =
      (if int r = \<lfloor>y / 10\<rfloor> \<and> int c = \<lfloor>x / 10\<rfloor> then \<not> g ! r ! c else g ! r ! c)"
    if "r < length g" "c < length (g ! r)" for r c
    using toggleCell_cell [OF that, of x y] by (simp add: p)
  then have pure: "pointer_cell x y = (\<lfloor>y / 10\<rfloor>, \<lfloor>x / 10\<rfloor>) \<and>
      length (toggleCell g x y) = length g \<and>
      (\<forall>r < length g. length (toggleCell g x y ! r) = length (g ! r) \<and>
         (\<forall>c < length (g ! r).
            toggleCell g x y ! r ! c =
              (if int r = \<lfloor>y / 10\<rfloor> \<and> int c = \<lfloor>x / 10\<rfloor> then \<not> g ! r ! c else g ! r ! c))) \<and>
      toggleCell (toggleCell g x y) x y = g"
    by (simp add: p length_toggleCell toggleCell_row toggleCell_twice)
  have again: "fire rnd (Click x y) (s\<lparr>cells := toggleCell (cells s) x y\<rparr>) = Some s"
    by (simp add: fire_click toggleCell_twice)
  show ?thesis
    using pure again fire_click [of rnd x y s] by blast
qed

theorem toggleCell_involution_witness:
  "toggleCell [[False, False, False], [False, False, False]] 25 13 =
     [[False, False, False], [False, False, True]] \<and>
   toggleCell (toggleCell [[False, False, False], [False, False, False]] 25 13) 25 13 =
     [[False, False, False], [False, False, False]] \<and>
   fire (\<lambda>k. 0) (Click 25 13)
     \<lparr>cells = [[False, False, False], [False, False, False]], mouseOverCell = None,
      systemRunning = True, userRunning = True, running = True, showControls = False,
      inView = True, showName = False, setShowName = False\<rparr> =
   Some \<lparr>cells = [[False, False, False], [False, False, True]], mouseOverCell = None,
      systemRunning = True, userRunning = True, running = True, showControls = False,
      inView = True, showName = False, setShowName = False\<rparr>"
proof -
  let ?g = "[[False, False, False], [False, False, False]]"
  let ?s = "\<lparr>cells = ?g, mouseOverCell = None,
      systemRunning = True, userRunning = True, running = True, showControls = False,
      inView = True, showName = False, setShowName = False\<rparr>"
  note t = toggleCell_involution [of 25 13 ?g "\<lambda>k. 0" ?s]
  have "toggleCell ?g 25 13 = [[False, False, False], [False, False, True]]"
    by (simp add: toggleCell_def pointer_cell_def CELL_SIZE_def)
  with t show ?thesis by simp
qed

subsection \<open>The shape of the grid\<close>

text \<open>
  Claim C5. \<open>HEIGHT / CELL_SIZE\<close> is 108 and \<open>WIDTH / CELL_SIZE\<close> is 192. The grids
  made by \<open>random\<close> and \<open>clear\<close> and the grid after mounting have 108 rows of 192
  cells; \<open>updateGrid\<close>, \<open>toggleCell\<close> and \<open>addGlider\<close> turn a grid of that shape
  into a grid of that shape; hence every event leaves the component with a grid of
  that shape.
\<close>

theorem grid_shape_preserved:
  "HEIGHT div CELL_SIZE = 108 \<and> WIDTH div CELL_SIZE = 192 \<and>
   rectangular (random_grid rnd) 108 192 \<and>
   rectangular clear_grid 108 192 \<and>
   rectangular (cells (mount rnd iv name setter)) 108 192 \<and>
   (rectangular g 108 192 \<longrightarrow>
      rectangular (updateGrid g) 108 192 \<and>
      rectangular (toggleCell g x y) 108 192 \<and>
      (\<exists>g'. addGlider g m = Some g' \<and> rectangular g' 108 192)) \<and>
   (rectangular (cells s) 108 192 \<longrightarrow>
      (\<exists>s'. fire rnd e s = Some s' \<and> rectangular (cells s') 108 192))"
proof -
  have "cells (mount rnd iv name setter) = random_grid rnd"
    by (simp add: mount_def Let_def cells_settle initial_state_def)
  then show ?thesis
    using fire_shape [of s rnd e] rectangular_addGlider [of g 108 192 m]
    by (simp add: HEIGHT_rows WIDTH_cols random_grid_def clear_grid_def rectangular_fresh_grid
        rectangular_updateGrid rectangular_toggleCell)
qed

theorem grid_shape_preserved_witness:
  "rectangular clear_grid 108 192 \<and>
   rectangular (updateGrid clear_grid) 108 192 \<and>
   rectangular (toggleCell clear_grid 15 25) 108 192 \<and>
   (\<exists>g'. addGlider clear_grid None = Some g' \<and> rectangular g' 108 192) \<and>
   rectangular (cells (mount (\<lambda>k. 0) True False False)) 108 192 \<and>
   (\<exists>s'. fire (\<lambda>k. 0) Tick (mount (\<lambda>k. 0) True False False) = Some s' \<and>
      rectangular (cells s') 108 192)"
  using grid_shape_preserved [where rnd = "\<lambda>k. 0" and iv = True and name = False
      and setter = False and g = clear_grid and x = 15 and y = 25 and m = None
      and s = "mount (\<lambda>k. 0) True False False" and e = Tick]
  by blast

subsection \<open>Stepping\<close>

text \<open>
  Claim C6. \<open>step\<close> changes nothing while \<open>running\<close> is true, and replaces the grid by
  \<open>updateGrid\<close> of it, once, while \<open>running\<close> is false. The key s and the Step button
  both do exactly this.
\<close>

theorem step_only_when_paused:
  "(running s \<longrightarrow> step s = s) \<and>
   (\<not> running s \<longrightarrow> step s = s\<lparr>cells := updateGrid (cells s)\<rparr>) \<and>
   handle rnd (KeyDown ''s'') s = Some (step s) \<and>
   handle rnd (Press StepButton) s = Some (step s) \<and>
   fire rnd (KeyDown ''s'') s = Some (step s) \<and>
   fire rnd (Press StepButton) s = Some (step s)"
  by (simp add: fire_step) (simp add: step_def handleKeyDown_def)

theorem step_only_when_paused_witness:
  "\<not> running \<lparr>cells = [[False, False, False, False], [True, True, True, False],
        [False, False, False, False], [False, False, False, False]],
      mouseOverCell = None, systemRunning = True, userRunning = False, running = False,
      showControls = True, inView = True, showName = False, setShowName = False\<rparr> \<and>
   cells (step \<lparr>cells = [[False, False, False, False], [True, True, True, False],
        [False, False, False, False], [False, False, False, False]],
      mouseOverCell = None, systemRunning = True, userRunning = False, running = False,
      showControls = True, inView = True, showName = False, setShowName = False\<rparr>) =
     [[False, True, False, False], [False, True, False, False],
      [False, True, False, False], [False, False, False, False]] \<and>
   running \<lparr>cells = [[True]], mouseOverCell = None, systemRunning = True, userRunning = True,
      running = True, showControls = True, inView = True, showName = False,
      setShowName = False\<rparr> \<and>
   cells (step \<lparr>cells = [[True]], mouseOverCell = None, systemRunning = True,
      userRunning = True, running = True, showControls = True, inView = True,
      showName = False, setShowName = False\<rparr>) = [[True]]"
proof -
  have u: "updateGrid [[False, False, False, False], [True, True, True, False],
        [False, False, False, False], [False, False, False, False]] =
     [[False, True, False, False], [False, True, False, False],
      [False, True, False, False], [False, False, False, False]]"
    by code_simp
  show ?thesis
    using step_only_when_paused [of "\<lparr>cells = [[False, False, False, False],
        [True, True, True, False], [False, False, False, False], [False, False, False, False]],
      mouseOverCell = None, systemRunning = True, userRunning = False, running = False,
      showControls = True, inView = True, showName = False, setShowName = False\<rparr>"]
      step_only_when_paused [of "\<lparr>cells = [[True]], mouseOverCell = None,
      systemRunning = True, userRunning = True, running = True, showControls = True,
      inView = True, showName = False, setShowName = False\<rparr>"]
    by (simp add: u)
qed

subsection \<open>The dead grid\<close>

text \<open>
  Claim C7. \<open>updateGrid\<close> returns an all-dead grid of any shape unchanged. The grid
  that \<open>clear\<close> stores is all dead, so \<open>clear\<close> followed by \<open>step\<close> while paused
  leaves the state that \<open>clear\<close> produced; the same holds for the keys c and s.
\<close>

theorem all_dead_fixed_point:
  "(all_dead g \<longrightarrow> updateGrid g = g) \<and>
   all_dead clear_grid \<and>
   cells (clear s) = clear_grid \<and>
   (\<not> running s \<longrightarrow>
      step (clear s) = clear s \<and>
      fire rnd (KeyDown ''c'') s = Some (clear s) \<and>
      fire rnd (KeyDown ''s'') (clear s) = Some (clear s))"
proof -
  have "step (clear s) = clear s" if "\<not> running s"
    using that updateGrid_all_dead [OF all_dead_clear_grid]
    by (simp add: step_def clear_def)
  then show ?thesis
    by (simp add: updateGrid_all_dead all_dead_clear_grid fire_clear fire_step)
       (simp add: clear_def)
qed

theorem all_dead_fixed_point_witness:
  "all_dead [[False, False, False], [False, False, False]] \<and>
   updateGrid [[False, False, False], [False, False, False]] =
     [[False, False, False], [False, False, False]] \<and>
   \<not> running \<lparr>cells = [[True]], mouseOverCell = None, systemRunning = True,
      userRunning = False, running = False, showControls = True, inView = True,
      showName = False, setShowName = False\<rparr> \<and>
   cells (step (clear \<lparr>cells = [[True]], mouseOverCell = None, systemRunning = True,
      userRunning = False, running = False, showControls = True, inView = True,
      showName = False, setShowName = False\<rparr>)) = clear_grid"
  using all_dead_fixed_point [of "[[False, False, False], [False, False, False]]"
      "\<lparr>cells = [[True]], mouseOverCell = None, systemRunning = True,
      userRunning = False, running = False, showControls = True, inView = True,
      showName = False, setShowName = False\<rparr>"]
  by (simp add: all_dead_def)

subsection \<open>The block\<close>

text \<open>
  Claim C8. Take a grid whose only live cells are a 2 by 2 block that does not touch the
  first or last row or column. \<open>updateGrid\<close> returns it unchanged, and so does
  \<open>updateGrid\<close> applied twice.
\<close>

theorem block_still_life:
  assumes "1 \<le> r" "r + 2 < rows" "1 \<le> c" "c + 2 < cols"
  shows "rectangular (block_grid rows cols r c) rows cols \<and>
         (\<forall>i < rows. \<forall>j < cols.
            block_grid rows cols r c ! i ! j = ((i = r \<or> i = r + 1) \<and> (j = c \<or> j = c + 1))) \<and>
         updateGrid (block_grid rows cols r c) = block_grid rows cols r c \<and>
         updateGrid (updateGrid (block_grid rows cols r c)) = block_grid rows cols r c"
  using updateGrid_block [OF assms]
  by (simp add: rectangular_block_grid block_grid_cell)

theorem block_still_life_witness:
  "(1::nat) \<le> 1 \<and> (1::nat) + 2 < 4 \<and>
   block_grid 4 4 1 1 =
     [[False, False, False, False], [False, True, True, False],
      [False, True, True, False], [False, False, False, False]] \<and>
   updateGrid (updateGrid [[False, False, False, False], [False, True, True, False],
      [False, True, True, False], [False, False, False, False]]) =
     [[False, False, False, False], [False, True, True, False],
      [False, True, True, False], [False, False, False, False]]"
proof -
  have b: "block_grid 4 4 1 1 =
     [[False, False, False, False], [False, True, True, False],
      [False, True, True, False], [False, False, False, False]]"
    by (simp add: block_grid_def upt_rec)
  have "updateGrid (updateGrid (block_grid 4 4 1 1)) = block_grid 4 4 1 1"
    using block_still_life [of 1 4 1 4] by simp
  then show ?thesis unfolding b by (simp add: b)
qed

subsection \<open>No error path\<close>

text \<open>
  Claim C9. \<open>addGlider\<close> always yields a grid of booleans and every event yields a next
  state. On a rectangular grid every index pair with which \<open>countNeighbors\<close> reads the
  grid lies inside the grid, so the read finds a cell, and for the cells that
  \<open>updateGrid\<close> visits no remainder is \<open>NaN\<close>. A click whose row \<open>\<lfloor>y / 10\<rfloor>\<close> or column
  \<open>\<lfloor>x / 10\<rfloor>\<close> is outside the grid leaves the grid unchanged; \<open>toggleCell\<close> compares
  indices and never reads the grid by index.
\<close>

theorem grid_operations_total:
  "(\<exists>g'. addGlider g m = Some g') \<and>
   (\<exists>s'. fire rnd e s = Some s') \<and>
   (rectangular g rows cols \<longrightarrow>
      (\<forall>p \<in> set (neighbor_reads g row col).
          0 \<le> fst p \<and> fst p < int rows \<and> 0 \<le> snd p \<and> snd p < int cols \<and>
          grid_at g (fst p) (snd p) \<noteq> None) \<and>
      (\<forall>r < rows. \<forall>c < cols.
          neighborsRow g (int r) i \<noteq> None \<and> neighborsColumn g (int c) j \<noteq> None) \<and>
      (\<not> (0 \<le> \<lfloor>y / 10\<rfloor> \<and> \<lfloor>y / 10\<rfloor> < int rows \<and> 0 \<le> \<lfloor>x / 10\<rfloor> \<and> \<lfloor>x / 10\<rfloor> < int cols) \<longrightarrow>
         toggleCell g x y = g))"
proof -
  have "\<forall>p \<in> set (neighbor_reads g row col).
          0 \<le> fst p \<and> fst p < int rows \<and> 0 \<le> snd p \<and> snd p < int cols \<and>
          grid_at g (fst p) (snd p) \<noteq> None" if "rectangular g rows cols"
    using neighbor_reads_in_range [OF that] by blast
  moreover have "\<forall>r < rows. \<forall>c < cols.
          neighborsRow g (int r) i \<noteq> None \<and> neighborsColumn g (int c) j \<noteq> None"
    if "rectangular g rows cols"
    using remainders_defined [OF that] by blast
  moreover have "toggleCell g x y = g"
    if "rectangular g rows cols"
      "\<not> (0 \<le> \<lfloor>y / 10\<rfloor> \<and> \<lfloor>y / 10\<rfloor> < int rows \<and> 0 \<le> \<lfloor>x / 10\<rfloor> \<and> \<lfloor>x / 10\<rfloor> < int cols)"
    using that by (rule toggleCell_outside_rect)
  ultimately show ?thesis
    using fire_defined [of rnd e s] addGlider_Some [of g m] by blast
qed

theorem grid_operations_total_witness:
  "rectangular [[True, False], [False, True]] 2 2 \<and>
   neighbor_reads [[True, False], [False, True]] 0 0 =
     [(1, 1), (1, 0), (1, 1), (0, 1), (0, 1), (1, 1), (1, 0), (1, 1)] \<and>
   grid_at [[True, False], [False, True]] 1 1 \<noteq> None \<and>
   toggleCell [[True, False], [False, True]] 25 (-3) = [[True, False], [False, True]] \<and>
   toggleCell [[True, False], [False, True]] 5 20 = [[True, False], [False, True]]"
proof -
  let ?g = "[[True, False], [False, True]]"
  have r: "rectangular ?g 2 2" by (simp add: rectangular_def)
  have n: "neighbor_reads ?g 0 0 = [(1, 1), (1, 0), (1, 1), (0, 1), (0, 1), (1, 1), (1, 0), (1, 1)]"
    by (simp add: neighbor_reads_def reads_at_def within_grid_def neighborsRow_def
        neighborsColumn_def numRows_def numCols_def js_rem_def js_index_def)
  have "grid_at ?g 1 1 \<noteq> None"
    using grid_operations_total [where g = ?g and rows = 2 and cols = 2 and row = 0 and col = 0] r n
    by simp
  moreover have "toggleCell ?g 25 (-3) = ?g"
    using grid_operations_total [where g = ?g and rows = 2 and cols = 2 and x = 25 and y = "-3"] r
    by simp
  moreover have "toggleCell ?g 5 20 = ?g"
    using grid_operations_total [where g = ?g and rows = 2 and cols = 2 and x = 5 and y = 20] r
    by simp
  ultimately show ?thesis using r n by simp
qed

subsection \<open>The glider is clipped, not wrapped\<close>

text \<open>
  Claim C10. With the anchor \<open>(ar, ac)\<close>, \<open>addGlider\<close> writes the pattern to those cells
  of the grid whose row is in \<open>ar .. ar + 2\<close> and whose column is in \<open>ac .. ac + 2\<close>, and
  to no others: a cell above the anchor row or left of the anchor column, such as one
  at the opposite edge, keeps its value. When the anchor row is at least the number of
  rows, or the anchor column at least the length of every row, the grid is unchanged.
\<close>

theorem addGlider_does_not_wrap:
  "\<exists>g'. addGlider g (Some (ar, ac)) = Some g' \<and> length g' = length g \<and>
     (\<forall>r < length g. length (g' ! r) = length (g ! r) \<and>
        (\<forall>c < length (g ! r).
           (ar \<le> int r \<and> int r < ar + 3 \<and> ac \<le> int c \<and> int c < ac + 3 \<longrightarrow>
              g' ! r ! c = ((int r - ar, int c - ac) \<in> set glider_alive)) \<and>
           (int r < ar \<or> ar + 3 \<le> int r \<or> int c < ac \<or> ac + 3 \<le> int c \<longrightarrow>
              g' ! r ! c = g ! r ! c))) \<and>
     (int (length g) \<le> ar \<or> list_all (\<lambda>row. int (length row) \<le> ac) g \<longrightarrow> g' = g)"
proof -
  obtain g' where g': "addGlider g (Some (ar, ac)) = Some g'" "length g' = length g"
    and roww: "\<And>r. r < length g \<Longrightarrow> length (g' ! r) = length (g ! r)"
    and cellw: "\<And>r c. r < length g \<Longrightarrow> c < length (g ! r) \<Longrightarrow>
       g' ! r ! c = (if in_footprint ar ac r c
            then (int r - ar, int c - ac) \<in> set glider_alive else g ! r ! c)"
    using addGlider_result [of g "Some (ar, ac)"]
    by (auto simp: inputRow_def inputColumn_def)
  have same: "g' = g"
    if out: "int (length g) \<le> ar \<or> list_all (\<lambda>row. int (length row) \<le> ac) g"
  proof (rule grid_eqI)
    fix r c assume rc: "r < length g" "c < length (g ! r)"
    from out rc have "\<not> in_footprint ar ac r c"
      by (auto simp: in_footprint_def list_all_length)
    with cellw [OF rc] show "g' ! r ! c = g ! r ! c" by simp
  qed (simp_all add: g' roww)
  have "(in_footprint ar ac r c \<longrightarrow> g' ! r ! c = ((int r - ar, int c - ac) \<in> set glider_alive)) \<and>
        (\<not> in_footprint ar ac r c \<longrightarrow> g' ! r ! c = g ! r ! c)"
    if "r < length g" "c < length (g ! r)" for r c
    using cellw [OF that] by simp
  then have "\<forall>r < length g. length (g' ! r) = length (g ! r) \<and>
        (\<forall>c < length (g ! r).
           (ar \<le> int r \<and> int r < ar + 3 \<and> ac \<le> int c \<and> int c < ac + 3 \<longrightarrow>
              g' ! r ! c = ((int r - ar, int c - ac) \<in> set glider_alive)) \<and>
           (int r < ar \<or> ar + 3 \<le> int r \<or> int c < ac \<or> ac + 3 \<le> int c \<longrightarrow>
              g' ! r ! c = g ! r ! c))"
    using roww by (auto simp: in_footprint_def)
  with g' same show ?thesis by blast
qed

theorem addGlider_does_not_wrap_witness:
  "addGlider (replicate 4 (replicate 4 True)) (Some (4, 1)) = Some (replicate 4 (replicate 4 True)) \<and>
   (\<exists>g'. addGlider (replicate 4 (replicate 4 True)) (Some (2, 3)) = Some g' \<and>
      g' ! 2 ! 3 \<and> g' ! 3 ! 3 \<and> g' ! 0 ! 3 \<and> g' ! 2 ! 0 \<and> g' ! 3 ! 0 \<and> g' ! 0 ! 0)"
proof -
  let ?g = "replicate 4 (replicate 4 True)"
  have a: "addGlider ?g (Some (4, 1)) = Some ?g"
    using addGlider_does_not_wrap [of ?g 4 1] by auto
  obtain g' where g': "addGlider ?g (Some (2, 3)) = Some g'"
    and c: "\<forall>r < length ?g. length (g' ! r) = length (?g ! r) \<and>
        (\<forall>c < length (?g ! r).
           (2 \<le> int r \<and> int r < 2 + 3 \<and> 3 \<le> int c \<and> int c < 3 + 3 \<longrightarrow>
              g' ! r ! c = ((int r - 2, int c - 3) \<in> set glider_alive)) \<and>
           (int r < 2 \<or> 2 + 3 \<le> int r \<or> int c < 3 \<or> 3 + 3 \<le> int c \<longrightarrow>
              g' ! r ! c = ?g ! r ! c))"
    using addGlider_does_not_wrap [of ?g 2 3] by blast
  have in_fp: "g' ! r ! c = ((int r - 2, int c - 3) \<in> set glider_alive)"
    if "r < 4" "c < 4" "2 \<le> r" "3 \<le> c" for r c
    using c that by simp
  have out_fp: "g' ! r ! c" if "r < 4" "c < 4" "r < 2 \<or> c < 3" for r c
    using c that by auto
  have "g' ! 2 ! 3" "g' ! 3 ! 3" using in_fp [of 2 3] in_fp [of 3 3]
    by (simp_all add: glider_alive_def)
  moreover have "g' ! 0 ! 3" "g' ! 2 ! 0" "g' ! 3 ! 0" "g' ! 0 ! 0"
    by (simp_all add: out_fp)
  ultimately show ?thesis using a g' by blast
qed

end
